theory Spec2Isabelle
  imports Complex_Main "HOL-Library.Multiset"
begin

section \<open>Vigilis: simulated unit movement, proximity query and location sync\<close>

text \<open>
  The movement simulator lives in \<^verbatim>\<open>app/components/map/EmbeddedMap.tsx\<close>
  (\<^verbatim>\<open>addPoliceOfficers\<close>, with its inner functions \<^verbatim>\<open>fetchPatrolRoute\<close> and
  \<^verbatim>\<open>animateOfficers\<close>, and the top-level \<^verbatim>\<open>easeInOutCubic\<close>).

  Numbers: a JavaScript \<^verbatim>\<open>number\<close> is modelled as a \<^typ>\<open>real\<close>. Rounding of IEEE
  doubles, NaN and the infinities are outside the model; \<^verbatim>\<open>Math.sqrt\<close>,
  \<^verbatim>\<open>Math.sin\<close>, \<^verbatim>\<open>Math.cos\<close>, \<^verbatim>\<open>Math.PI\<close>, \<^verbatim>\<open>Math.min\<close> and
  \<^verbatim>\<open>Math.pow(x, 3)\<close> are the functions \<^const>\<open>sqrt\<close>, \<^const>\<open>sin\<close>,
  \<^const>\<open>cos\<close>, \<^const>\<open>pi\<close>, \<^const>\<open>min\<close> and \<open>x ^ 3\<close> on the reals.
  \<^verbatim>\<open>Date.now()\<close> and \<^verbatim>\<open>Math.random()\<close> read the environment: the model takes
  their results as arguments (\<open>now\<close>, and \<open>rnd\<close> with \<open>0 \<le> rnd < 1\<close>).
\<close>

subsection \<open>Easing\<close>

text \<open>
  \<^verbatim>\<open>function easeInOutCubic(t) { return t < 0.5 ? 4 * t * t * t : 1 - Math.pow(-2 * t + 2, 3) / 2; }\<close>
\<close>

definition easeInOutCubic :: "real \<Rightarrow> real" where
  "easeInOutCubic t = (if t < 0.5 then 4 * t * t * t else 1 - (- 2 * t + 2) ^ 3 / 2)"

subsection \<open>Data of the movement simulator\<close>

text \<open>A coordinate pair \<^verbatim>\<open>[number, number]\<close> is \<open>[lng, lat]\<close>.\<close>

type_synonym point = "real \<times> real"

text \<open>
  \<^verbatim>\<open>interface PoliceOfficer\<close>, with the fields the simulator reads. An optional field
  (\<^verbatim>\<open>heading?: number\<close>, \<^verbatim>\<open>dispatched?: boolean\<close>) is an \<open>option\<close>; the fields
  \<^verbatim>\<open>id\<close>, \<^verbatim>\<open>name\<close>, \<^verbatim>\<open>role\<close> and \<^verbatim>\<open>heading\<close> carry a prefix, because
  \<open>id\<close> is a constant of HOL and \<open>heading\<close> is also a field of the simulator's state.
\<close>

record PoliceOfficer =
  officer_id :: string
  officer_name :: string
  officer_role :: string
  location :: point
  officer_heading :: "real option"
  dispatched :: "bool option"

text \<open>The value type of the \<^verbatim>\<open>officerData\<close> map.\<close>

record officer_data =
  current :: point
  route :: "point list"
  routeIndex :: nat
  heading :: real
  waitingUntil :: "real option"
  segmentProgress :: real
  segmentStartTime :: real

text \<open>
  The GeoJSON feature that a frame emits for one officer: its \<^verbatim>\<open>properties\<close> and the
  \<^verbatim>\<open>coordinates\<close> of its point geometry.
\<close>

record feature =
  feature_id :: string
  feature_name :: string
  feature_role :: string
  feature_heading :: real
  feature_dispatched :: bool
  coordinates :: point

text \<open>
  Reading \<^verbatim>\<open>targetPoint[0]\<close> when \<^verbatim>\<open>data.route[data.routeIndex]\<close> is
  \<^verbatim>\<open>undefined\<close> throws a \<^verbatim>\<open>TypeError\<close>; so does \<^verbatim>\<open>route.geometry.coordinates\<close>
  when \<^verbatim>\<open>geometry\<close> is missing. A rejected \<^verbatim>\<open>fetch\<close> or an unparsable body throws too.
\<close>

datatype error = TypeError | FetchError

text \<open>JavaScript's \<^verbatim>\<open>x || d\<close> on an optional number and on an optional boolean:
  \<^verbatim>\<open>undefined\<close> and \<open>0\<close> (and \<^verbatim>\<open>false\<close>) are falsy.\<close>

definition num_or :: "real option \<Rightarrow> real \<Rightarrow> real" where
  "num_or x d = (case x of None \<Rightarrow> d | Some v \<Rightarrow> if v = 0 then d else v)"

definition bool_or :: "bool option \<Rightarrow> bool \<Rightarrow> bool" where
  "bool_or x d = (case x of None \<Rightarrow> d | Some v \<Rightarrow> if v then v else d)"

text \<open>
  \<^verbatim>\<open>Math.atan2(y, x)\<close> as ECMAScript specifies it on finite numbers, without the
  signed zeros: the angle in \<open>(-\<pi>, \<pi>]\<close> of the point \<open>(x, y)\<close>, and \<open>0\<close> at the origin.
\<close>

definition atan2 :: "real \<Rightarrow> real \<Rightarrow> real" where
  "atan2 y x =
     (if 0 < x then arctan (y / x)
      else if x < 0 then (if 0 \<le> y then arctan (y / x) + pi else arctan (y / x) - pi)
      else if 0 < y then pi / 2
      else if y < 0 then - (pi / 2)
      else 0)"

subsection \<open>Initialisation and route acquisition\<close>

text \<open>
  \<^verbatim>\<open>officers.forEach((officer) => { const heading = officer.heading || Math.random() * 360;
  officerData.set(officer.id, {current: officer.location, route: [], routeIndex: 0, heading,
  waitingUntil: null, segmentProgress: 0, segmentStartTime: Date.now()}); ... })\<close>
\<close>

definition initOfficer :: "real \<Rightarrow> real \<Rightarrow> PoliceOfficer \<Rightarrow> officer_data" where
  "initOfficer now rnd officer =
     \<lparr> current = location officer,
       route = [],
       routeIndex = 0,
       heading = num_or (officer_heading officer) (rnd * 360),
       waitingUntil = None,
       segmentProgress = 0,
       segmentStartTime = now \<rparr>"

text \<open>
  The waypoints of the Directions request that \<^verbatim>\<open>fetchPatrolRoute\<close> builds: the
  coordinates of its URL, in order (\<^verbatim>\<open>start;waypoint1;waypoint2;start\<close>). The two
  arguments \<open>rnd1\<close> and \<open>rnd2\<close> are the two calls of \<^verbatim>\<open>Math.random()\<close>.
\<close>

definition patrolWaypoints :: "point \<Rightarrow> real \<Rightarrow> real \<Rightarrow> point list" where
  "patrolWaypoints start rnd1 rnd2 =
     (let distance = 0.002;
          angle1 = rnd1 * pi * 2;
          angle2 = angle1 + pi / 2 + (rnd2 - 0.5) * pi;
          waypoint1 = (fst start + cos angle1 * distance, snd start + sin angle1 * distance);
          waypoint2 = (fst start + cos angle2 * distance, snd start + sin angle2 * distance)
      in [start, waypoint1, waypoint2, start])"

text \<open>
  The body of the Directions response, as far as \<^verbatim>\<open>fetchPatrolRoute\<close> reads it:
  \<^verbatim>\<open>data.routes\<close> (possibly missing), each route with its \<^verbatim>\<open>geometry\<close> (possibly
  missing) and the geometry's \<^verbatim>\<open>coordinates\<close> (possibly missing). The routing service
  is external: the model takes it as a function from the requested waypoints to either a
  thrown error or a body.
\<close>

datatype geometry_json = Geometry "point list option"

datatype route_json = Route "geometry_json option"

type_synonym directions = "point list \<Rightarrow> error + route_json list option"

text \<open>The \<^verbatim>\<open>try\<close> block of \<^verbatim>\<open>fetchPatrolRoute\<close>: \<open>Inl\<close> is a thrown error,
  \<open>Inr None\<close> is falling out of the block (or returning \<^verbatim>\<open>undefined\<close>).\<close>

definition fetchPatrolRoute_try ::
  "directions \<Rightarrow> real \<Rightarrow> real \<Rightarrow> point \<Rightarrow> error + point list option" where
  "fetchPatrolRoute_try fetch rnd1 rnd2 start =
     (case fetch (patrolWaypoints start rnd1 rnd2) of
        Inl e \<Rightarrow> Inl e
      | Inr None \<Rightarrow> Inr None
      | Inr (Some []) \<Rightarrow> Inr None
      | Inr (Some (Route None # _)) \<Rightarrow> Inl TypeError
      | Inr (Some (Route (Some (Geometry coords)) # _)) \<Rightarrow> Inr coords)"

text \<open>
  \<^verbatim>\<open>fetchPatrolRoute(start)\<close>: \<^verbatim>\<open>if (!token) return null\<close> (a missing and an empty
  token are both falsy), then the \<^verbatim>\<open>try\<close> block, whose \<^verbatim>\<open>catch\<close> logs the error
  and falls through to \<^verbatim>\<open>return null\<close>. \<open>None\<close> is \<^verbatim>\<open>null\<close>.
\<close>

definition fetchPatrolRoute ::
  "string option \<Rightarrow> directions \<Rightarrow> real \<Rightarrow> real \<Rightarrow> point \<Rightarrow> point list option" where
  "fetchPatrolRoute token fetch rnd1 rnd2 start =
     (if token = None \<or> token = Some [] then None
      else case fetchPatrolRoute_try fetch rnd1 rnd2 start of
             Inl e \<Rightarrow> None
           | Inr r \<Rightarrow> r)"

text \<open>
  The continuation \<^verbatim>\<open>.then((route) => { const data = officerData.get(officer.id);
  if (data && route) { data.route = route; data.routeIndex = 0; } })\<close>.
\<close>

definition patrolRouteThen :: "point list option \<Rightarrow> officer_data option \<Rightarrow> officer_data option" where
  "patrolRouteThen r data =
     (case data of
        None \<Rightarrow> None
      | Some d \<Rightarrow> (case r of None \<Rightarrow> Some d | Some rt \<Rightarrow> Some (d\<lparr>route := rt, routeIndex := 0\<rparr>)))"

subsection \<open>One frame of \<^verbatim>\<open>animateOfficers\<close>, for one officer\<close>

text \<open>The feature literal that every branch of the callback returns, given the heading
  and the coordinates it writes.\<close>

definition officerFeature :: "PoliceOfficer \<Rightarrow> real \<Rightarrow> point \<Rightarrow> feature" where
  "officerFeature officer h c =
     \<lparr> feature_id = officer_id officer,
       feature_name = officer_name officer,
       feature_role = officer_role officer,
       feature_heading = h,
       feature_dispatched = bool_or (dispatched officer) False,
       coordinates = c \<rparr>"

text \<open>
  \<^verbatim>\<open>const speedMultiplier = 1 + Math.sin(easedProgress * Math.PI) * 2\<close> with
  \<^verbatim>\<open>easedProgress = easeInOutCubic(data.segmentProgress)\<close>, as a function of the segment
  progress.
\<close>

definition speedMultiplier :: "real \<Rightarrow> real" where
  "speedMultiplier progress = 1 + sin (easeInOutCubic progress * pi) * 2"

text \<open>
  The part of the callback under \<^verbatim>\<open>// Move along the route\<close>, up to the final
  \<^verbatim>\<open>return\<close>: it updates \<^verbatim>\<open>data\<close> in place, here it returns the updated state.
  \<open>rnd\<close> is the \<^verbatim>\<open>Math.random()\<close> of the dwell.
\<close>

definition moveAlongRoute :: "real \<Rightarrow> real \<Rightarrow> officer_data \<Rightarrow> error + officer_data" where
  "moveAlongRoute now rnd d =
     (if length (route d) \<le> routeIndex d then Inl TypeError
      else
        let targetPoint = route d ! routeIndex d;
            dx = fst targetPoint - fst (current d);
            dy = snd targetPoint - snd (current d);
            distance = sqrt (dx * dx + dy * dy)
        in if distance > 0.000005 then
             let baseSpeed = 0.0000015;
                 elapsed = now - segmentStartTime d;
                 estimatedDuration = 15000;
                 progress = min (elapsed / estimatedDuration) 1;
                 adjustedSpeed = baseSpeed * speedMultiplier progress;
                 ratio = min (adjustedSpeed / distance) 1
             in Inr (d\<lparr> segmentProgress := progress,
                        current := (fst (current d) + dx * ratio, snd (current d) + dy * ratio),
                        heading := atan2 dy dx * 180 / pi \<rparr>)
           else
             let next = routeIndex d + 1
             in Inr (d\<lparr> waitingUntil := Some (now + 2000 + rnd * 1000),
                        routeIndex := (if next \<ge> length (route d) then 0 else next) \<rparr>))"

text \<open>The move followed by the final \<^verbatim>\<open>return\<close> of the callback, which emits the
  heading and the position just written.\<close>

definition moveAndEmit ::
  "real \<Rightarrow> real \<Rightarrow> PoliceOfficer \<Rightarrow> officer_data \<Rightarrow> error + feature \<times> officer_data option" where
  "moveAndEmit now rnd officer d =
     (case moveAlongRoute now rnd d of
        Inl e \<Rightarrow> Inl e
      | Inr d' \<Rightarrow> Inr (officerFeature officer (heading d') (current d'), Some d'))"

text \<open>
  The callback of \<^verbatim>\<open>currentOfficers.map\<close> in \<^verbatim>\<open>animateOfficers\<close>, for one officer:
  \<open>data\<close> is \<^verbatim>\<open>officerData.get(officer.id)\<close>, the result is the emitted feature and
  the entry of the map after the frame.
\<close>

definition animateOfficer ::
  "real \<Rightarrow> real \<Rightarrow> PoliceOfficer \<Rightarrow> officer_data option \<Rightarrow> error + feature \<times> officer_data option" where
  "animateOfficer now rnd officer data =
     (case data of
        None \<Rightarrow> Inr (officerFeature officer 0 (location officer), None)
      | Some d \<Rightarrow>
          if length (route d) = 0 then
            Inr (officerFeature officer (num_or (Some (heading d)) 0) (current d), Some d)
          else
            (case waitingUntil d of
               None \<Rightarrow> moveAndEmit now rnd officer d
             | Some w \<Rightarrow>
                 if now < w then Inr (officerFeature officer (heading d) (current d), Some d)
                 else moveAndEmit now rnd officer
                        (d\<lparr> waitingUntil := None, segmentProgress := 0, segmentStartTime := now \<rparr>)))"

text \<open>
  \<^verbatim>\<open>requestAnimationFrame(animateOfficers)\<close> runs the callback again at every frame.
  For one officer, the frames at the times and random draws \<open>ticks\<close> give the features
  emitted, in order, and the final entry; a throwing frame ends the animation.
\<close>

fun animateFrames ::
  "(real \<times> real) list \<Rightarrow> PoliceOfficer \<Rightarrow> officer_data option \<Rightarrow> error + feature list \<times> officer_data option" where
  "animateFrames [] officer data = Inr ([], data)"
| "animateFrames ((now, rnd) # ticks) officer data =
     (case animateOfficer now rnd officer data of
        Inl e \<Rightarrow> Inl e
      | Inr (f, data') \<Rightarrow>
          (case animateFrames ticks officer data' of
             Inl e \<Rightarrow> Inl e
           | Inr (fs, data'') \<Rightarrow> Inr (f # fs, data'')))"

text \<open>The straight-line distance that the simulator measures between two points.\<close>

definition distance_to :: "point \<Rightarrow> point \<Rightarrow> real" where
  "distance_to p q = sqrt ((fst q - fst p) * (fst q - fst p) + (snd q - snd p) * (snd q - snd p))"

subsection \<open>Proximity index\<close>

text \<open>
  Modelled from the spec: the position record and the proximity query of the backend
  (\<^verbatim>\<open>redis_client.py\<close>, \<^verbatim>\<open>get_nearby_cars\<close>), whose code is not among the sources.
  The record follows section 3 of the specification (\<^verbatim>\<open>heading\<close> is \<open>pos_heading\<close>
  here), the distance and the query follow section 4.3.
\<close>

record PositionRecord =
  unit_id :: string
  lat :: real
  lng :: real
  speed :: real
  pos_heading :: real
  observed_at :: real

text \<open>Modelled from the spec: degrees to radians, for the haversine formula, which the
  specification states on latitudes and longitudes in radians.\<close>

definition radians :: "real \<Rightarrow> real" where
  "radians deg = deg * pi / 180"

text \<open>
  Modelled from the spec: \<open>a = sin\<^sup>2(\<Delta>lat/2) + cos(lat1) cos(lat2) sin\<^sup>2(\<Delta>lng/2)\<close>,
  \<open>distance = 2 R atan2(sqrt a, sqrt (1 - a))\<close>, with \<open>R\<close> = 6371 km.
\<close>

definition haversine_km :: "real \<Rightarrow> real \<Rightarrow> real \<Rightarrow> real \<Rightarrow> real" where
  "haversine_km lat1 lng1 lat2 lng2 =
     (let R = 6371;
          phi1 = radians lat1;
          phi2 = radians lat2;
          dlat = radians lat2 - radians lat1;
          dlng = radians lng2 - radians lng1;
          a = (sin (dlat / 2))\<^sup>2 + cos phi1 * cos phi2 * (sin (dlng / 2))\<^sup>2
      in 2 * R * atan2 (sqrt a) (sqrt (1 - a)))"

text \<open>Modelled from the spec: the \<open>distance_km\<close> of an entry
  \<open>(unit_id, position, distance_km)\<close> of the result.\<close>

definition distance_km :: "string \<times> PositionRecord \<times> real \<Rightarrow> real" where
  "distance_km r = snd (snd r)"

text \<open>Modelled from the spec: the entry of a record, with its haversine distance from
  the centre of the query.\<close>

definition with_distance :: "real \<Rightarrow> real \<Rightarrow> PositionRecord \<Rightarrow> string \<times> PositionRecord \<times> real" where
  "with_distance center_lat center_lng p =
     (unit_id p, p, haversine_km center_lat center_lng (lat p) (lng p))"

text \<open>
  Modelled from the spec: \<open>query(center_lat, center_lng, radius_km)\<close> on the snapshot
  that \<open>list_all()\<close> returns: every record with its distance from the centre, the
  inclusive radius filter \<open>distance_km \<le> radius_km\<close>, ascending by distance.
\<close>

definition query ::
  "PositionRecord list \<Rightarrow> real \<Rightarrow> real \<Rightarrow> real \<Rightarrow> (string \<times> PositionRecord \<times> real) list" where
  "query snapshot center_lat center_lng radius_km =
     sort_key distance_km
       (filter (\<lambda>r. distance_km r \<le> radius_km)
          (map (with_distance center_lat center_lng) snapshot))"

subsection \<open>Sync service\<close>

text \<open>
  Modelled from the spec: the checkpoint counters (section 3) and the sync cycle (section
  4.4) of the backend, whose \<^verbatim>\<open>location_sync.py\<close> is not among the sources.
  \<open>last_cycle_at\<close> is \<open>None\<close> before the first cycle.
\<close>

record SyncCheckpoint =
  total_sync_cycles :: nat
  successful_upserts :: nat
  failed_upserts :: nat
  last_cycle_at :: "real option"

text \<open>
  Modelled from the spec: the durable store is an external collaborator with an
  upsert by key, whose failure the service observes as a per-record error: \<open>upsert s p\<close>
  is \<open>None\<close> when upserting the record \<open>p\<close> into the store \<open>s\<close> fails, the store after
  the upsert otherwise. Step 2 and step 3 of the cycle: each record of the snapshot is
  attempted in turn, and its outcome counted.
\<close>

fun sync_records ::
  "('s \<Rightarrow> PositionRecord \<Rightarrow> 's option) \<Rightarrow> PositionRecord list \<Rightarrow> SyncCheckpoint \<times> 's \<Rightarrow> SyncCheckpoint \<times> 's" where
  "sync_records upsert [] (c, s) = (c, s)"
| "sync_records upsert (p # ps) (c, s) =
     (case upsert s p of
        None \<Rightarrow> sync_records upsert ps (c\<lparr>failed_upserts := failed_upserts c + 1\<rparr>, s)
      | Some s' \<Rightarrow> sync_records upsert ps (c\<lparr>successful_upserts := successful_upserts c + 1\<rparr>, s'))"

text \<open>Modelled from the spec: one cycle at time \<open>now\<close> on the snapshot of \<open>list_all()\<close>
  (steps 1 to 4 of section 4.4).\<close>

definition sync_cycle ::
  "('s \<Rightarrow> PositionRecord \<Rightarrow> 's option) \<Rightarrow> real \<Rightarrow> PositionRecord list \<Rightarrow> SyncCheckpoint \<times> 's \<Rightarrow> SyncCheckpoint \<times> 's" where
  "sync_cycle upsert now snapshot cs =
     (case sync_records upsert snapshot cs of
        (c, s) \<Rightarrow> (c\<lparr>last_cycle_at := Some now, total_sync_cycles := total_sync_cycles c + 1\<rparr>, s))"

subsection \<open>A patrol, as concrete input\<close>

text \<open>
  The unit \<open>U1\<close> of the end-to-end scenario of the specification, at
  \<open>(33.7490, -84.3880)\<close> with a loop of three waypoints, and four entries of
  \<^verbatim>\<open>officerData\<close> for it: at the start of the loop, waiting at the first waypoint,
  arriving at the first waypoint, and closing the loop at the last one.
\<close>

abbreviation unit_U1 :: PoliceOfficer where
  "unit_U1 \<equiv> \<lparr> officer_id = ''U1'', officer_name = ''Unit 1'', officer_role = ''Patrol'',
                 location = (- 84.388, 33.749), officer_heading = Some 90, dispatched = None \<rparr>"

abbreviation loop_U1 :: "point list" where
  "loop_U1 \<equiv> [(- 84.388, 33.748), (- 84.387, 33.748), (- 84.388, 33.749)]"

abbreviation patrol_U1 :: officer_data where
  "patrol_U1 \<equiv> \<lparr> current = (- 84.388, 33.749), route = loop_U1, routeIndex = 0, heading = 90,
                   waitingUntil = None, segmentProgress = 0, segmentStartTime = 0 \<rparr>"


abbreviation arriving_U1 :: officer_data where
  "arriving_U1 \<equiv> \<lparr> current = (- 84.388, 33.748003), route = loop_U1, routeIndex = 0, heading = - 90,
                     waitingUntil = None, segmentProgress = 1, segmentStartTime = 0 \<rparr>"

abbreviation closing_U1 :: officer_data where
  "closing_U1 \<equiv> \<lparr> current = (- 84.388, 33.748998), route = loop_U1, routeIndex = 2, heading = 90,
                    waitingUntil = None, segmentProgress = 1, segmentStartTime = 40000 \<rparr>"

text \<open>
  Two position records of the proximity example of the specification, 0.1 km apart on
  one meridian, a fresh checkpoint, and three durable stores: one that fails every
  upsert, one that accepts every upsert, and one that fails the upserts of unit \<open>B\<close>.
\<close>

abbreviation car_A :: PositionRecord where
  "car_A \<equiv> \<lparr> unit_id = ''A'', lat = 33.749, lng = - 84.388, speed = 0, pos_heading = 0, observed_at = 0 \<rparr>"

abbreviation car_B :: PositionRecord where
  "car_B \<equiv> \<lparr> unit_id = ''B'', lat = 33.7499, lng = - 84.388, speed = 30, pos_heading = 90, observed_at = 0 \<rparr>"

abbreviation checkpoint0 :: SyncCheckpoint where
  "checkpoint0 \<equiv> \<lparr> total_sync_cycles = 0, successful_upserts = 0, failed_upserts = 0, last_cycle_at = None \<rparr>"

abbreviation store_down :: "(string \<rightharpoonup> real \<times> real) \<Rightarrow> PositionRecord \<Rightarrow> (string \<rightharpoonup> real \<times> real) option" where
  "store_down \<equiv> (\<lambda>s p. None)"

abbreviation store_up :: "(string \<rightharpoonup> real \<times> real) \<Rightarrow> PositionRecord \<Rightarrow> (string \<rightharpoonup> real \<times> real) option" where
  "store_up \<equiv> (\<lambda>s p. Some (s(unit_id p \<mapsto> (lat p, lng p))))"

abbreviation store_flaky :: "(string \<rightharpoonup> real \<times> real) \<Rightarrow> PositionRecord \<Rightarrow> (string \<rightharpoonup> real \<times> real) option" where
  "store_flaky \<equiv> (\<lambda>s p. if unit_id p = ''B'' then None else Some (s(unit_id p \<mapsto> (lat p, lng p))))"

section \<open>Properties\<close>

subsection \<open>The easing function\<close>

lemma ease_low: "t < 1/2 \<Longrightarrow> easeInOutCubic t = 4 * t ^ 3"
  by (simp add: easeInOutCubic_def power3_eq_cube)

lemma ease_high:
  assumes "1/2 \<le> t"
  shows "easeInOutCubic t = 1 - 4 * (1 - t) ^ 3"
proof -
  have "- 2 * t + 2 = 2 * (1 - t)" by simp
  then have "(- 2 * t + 2) ^ 3 = (2 * (1 - t)) ^ 3" by (rule arg_cong)
  also have "\<dots> = 8 * (1 - t) ^ 3" unfolding power_mult_distrib by simp
  finally show ?thesis using assms by (simp add: easeInOutCubic_def)
qed

lemma ease_0: "easeInOutCubic 0 = 0"
  by (simp add: easeInOutCubic_def)

lemma ease_1: "easeInOutCubic 1 = 1"
  by (simp add: easeInOutCubic_def)

lemma ease_half: "easeInOutCubic (1/2) = 1/2"
  by (simp add: ease_high power3_eq_cube)

lemma ease_sym: "easeInOutCubic t + easeInOutCubic (1 - t) = 1"
proof (cases "t < 1/2")
  case True
  then have "1/2 \<le> 1 - t" by simp
  with True show ?thesis by (simp add: ease_low ease_high)
next
  case False
  show ?thesis
  proof (cases "t = 1/2")
    case True
    have "1 - t = t" using True by simp
    show ?thesis unfolding \<open>1 - t = t\<close> unfolding True using ease_half by simp
  next
    case ne: False
    with False have "1 - t < 1/2" "1/2 \<le> t" by simp_all
    then show ?thesis by (simp add: ease_low ease_high)
  qed
qed

lemma cube_mono: "(a::real) \<le> b \<Longrightarrow> a ^ 3 \<le> b ^ 3"
  by (rule power_mono_odd) simp_all

lemma ease_mono:
  assumes "t \<le> u"
  shows "easeInOutCubic t \<le> easeInOutCubic u"
proof (cases "u < 1/2")
  case True
  with assms have "t < 1/2" by simp
  with True cube_mono[OF assms] show ?thesis by (simp add: ease_low)
next
  case uh: False
  then have u: "1/2 \<le> u" by simp
  show ?thesis
  proof (cases "t < 1/2")
    case True
    have "t ^ 3 \<le> (1/2) ^ 3" using True by (intro cube_mono) simp
    then have a: "4 * t ^ 3 \<le> 1/2" by (simp add: power3_eq_cube)
    have "(1 - u) ^ 3 \<le> (1/2) ^ 3" using u by (intro cube_mono) simp
    then have b: "4 * (1 - u) ^ 3 \<le> 1/2" by (simp add: power3_eq_cube)
    from a b show ?thesis using True u by (simp add: ease_low ease_high)
  next
    case False
    then have t: "1/2 \<le> t" by simp
    have "(1 - u) ^ 3 \<le> (1 - t) ^ 3" using assms by (intro cube_mono) simp
    then show ?thesis using t u by (simp add: ease_high)
  qed
qed


text \<open>
  C10: \<open>easeInOutCubic\<close> maps 0 to 0, 1 to 1 and 1/2 to 1/2, it is monotonically
  nondecreasing on \<open>[0,1]\<close>, and it is point-symmetric about the midpoint:
  \<open>ease(t) + ease(1 - t) = 1\<close> for every \<open>t\<close> in \<open>[0,1]\<close>.
\<close>

theorem easeInOutCubic_properties:
  "easeInOutCubic 0 = 0 \<and> easeInOutCubic 1 = 1 \<and> easeInOutCubic (1/2) = 1/2
   \<and> (\<forall>t u. 0 \<le> t \<and> t \<le> u \<and> u \<le> 1 \<longrightarrow> easeInOutCubic t \<le> easeInOutCubic u)
   \<and> (\<forall>t. 0 \<le> t \<and> t \<le> 1 \<longrightarrow> easeInOutCubic t + easeInOutCubic (1 - t) = 1)"
  using ease_0 ease_1 ease_half ease_mono ease_sym by blast

theorem easeInOutCubic_properties_witness:
  "(0::real) \<le> 1/4 \<and> (1/4::real) \<le> 3/4 \<and> (3/4::real) \<le> 1
   \<and> easeInOutCubic (1/4) = 1/16 \<and> easeInOutCubic (3/4) = 15/16
   \<and> easeInOutCubic (1/4) \<le> easeInOutCubic (3/4)
   \<and> easeInOutCubic (1/4) + easeInOutCubic (1 - 1/4) = 1"
proof -
  have a: "easeInOutCubic (1/4) = 1/16"
    by (simp add: easeInOutCubic_def)
  have b: "easeInOutCubic (3/4) = 15/16"
    by (simp add: easeInOutCubic_def power3_eq_cube)
  from easeInOutCubic_properties
  have "\<forall>t u. 0 \<le> t \<and> t \<le> u \<and> u \<le> 1 \<longrightarrow> easeInOutCubic t \<le> easeInOutCubic u"
    by blast
  then have "0 \<le> (1/4::real) \<and> (1/4::real) \<le> 3/4 \<and> (3/4::real) \<le> 1
      \<longrightarrow> easeInOutCubic (1/4) \<le> easeInOutCubic (3/4)"
    by blast
  then have m: "easeInOutCubic (1/4) \<le> easeInOutCubic (3/4)" by simp
  from easeInOutCubic_properties
  have "\<forall>t. 0 \<le> t \<and> t \<le> 1 \<longrightarrow> easeInOutCubic t + easeInOutCubic (1 - t) = 1"
    by blast
  then have "0 \<le> (1/4::real) \<and> (1/4::real) \<le> 1
      \<longrightarrow> easeInOutCubic (1/4) + easeInOutCubic (1 - 1/4) = 1"
    by (rule spec)
  then have s: "easeInOutCubic (1/4) + easeInOutCubic (1 - 1/4) = 1" by simp
  from a b m s show ?thesis by simp
qed

subsection \<open>The angle function\<close>

lemma atan2_bounds: "- pi < atan2 y x \<and> atan2 y x \<le> pi"
proof -
  have lo: "- (pi / 2) < arctan (y / x)" and hi: "arctan (y / x) < pi / 2"
    by (rule arctan_lbound, rule arctan_ubound)
  consider "0 < x" | "x < 0" "0 \<le> y" | "x < 0" "y < 0" | "x = 0"
    by linarith
  then show ?thesis
  proof cases
    case 1
    then have "atan2 y x = arctan (y / x)" by (simp add: atan2_def)
    with lo hi pi_gt_zero show ?thesis by linarith
  next
    case 2
    then have "y / x \<le> 0" by (simp add: divide_nonneg_neg)
    then have "arctan (y / x) \<le> 0" using arctan_le_zero_iff by blast
    moreover from 2 have "atan2 y x = arctan (y / x) + pi" by (simp add: atan2_def)
    ultimately show ?thesis using lo pi_gt_zero by linarith
  next
    case 3
    then have "0 < y / x" by (simp add: divide_neg_neg)
    then have "0 < arctan (y / x)" using zero_less_arctan_iff by blast
    moreover from 3 have "atan2 y x = arctan (y / x) - pi" by (simp add: atan2_def)
    ultimately show ?thesis using hi pi_gt_zero by linarith
  next
    case 4
    then have "atan2 y x = pi / 2 \<or> atan2 y x = - (pi / 2) \<or> atan2 y x = 0"
      by (simp add: atan2_def)
    with pi_gt_zero show ?thesis by linarith
  qed
qed

lemma atan2_south: "y < 0 \<Longrightarrow> atan2 y 0 = - (pi / 2)"
  by (simp add: atan2_def)


subsection \<open>The speed profile\<close>






subsection \<open>The branches of a frame\<close>

lemma moveAlongRoute_far:
  assumes "routeIndex d < length (route d)"
    and "0.000005 < distance_to (current d) (route d ! routeIndex d)"
  shows "moveAlongRoute now rnd d =
     Inr (d\<lparr> segmentProgress := min ((now - segmentStartTime d) / 15000) 1,
              current :=
                (fst (current d) + (fst (route d ! routeIndex d) - fst (current d))
                   * min (0.0000015 * speedMultiplier (min ((now - segmentStartTime d) / 15000) 1)
                          / distance_to (current d) (route d ! routeIndex d)) 1,
                 snd (current d) + (snd (route d ! routeIndex d) - snd (current d))
                   * min (0.0000015 * speedMultiplier (min ((now - segmentStartTime d) / 15000) 1)
                          / distance_to (current d) (route d ! routeIndex d)) 1),
              heading := atan2 (snd (route d ! routeIndex d) - snd (current d))
                               (fst (route d ! routeIndex d) - fst (current d)) * 180 / pi \<rparr>)"
  using assms unfolding moveAlongRoute_def distance_to_def Let_def by simp

lemma moveAlongRoute_near:
  assumes "routeIndex d < length (route d)"
    and "distance_to (current d) (route d ! routeIndex d) \<le> 0.000005"
  shows "moveAlongRoute now rnd d =
     Inr (d\<lparr> waitingUntil := Some (now + 2000 + rnd * 1000),
              routeIndex := (if length (route d) \<le> routeIndex d + 1 then 0 else routeIndex d + 1) \<rparr>)"
  using assms unfolding moveAlongRoute_def distance_to_def Let_def by simp

lemma moveAlongRoute_out_of_range:
  "length (route d) \<le> routeIndex d \<Longrightarrow> moveAlongRoute now rnd d = Inl TypeError"
  by (simp add: moveAlongRoute_def)

lemma animateOfficer_no_route:
  "route d = [] \<Longrightarrow>
   animateOfficer now rnd officer (Some d) = Inr (officerFeature officer (heading d) (current d), Some d)"
  by (simp add: animateOfficer_def num_or_def)

lemma animateOfficer_waiting:
  "route d \<noteq> [] \<Longrightarrow> waitingUntil d = Some w \<Longrightarrow> now < w \<Longrightarrow>
   animateOfficer now rnd officer (Some d) = Inr (officerFeature officer (heading d) (current d), Some d)"
  by (simp add: animateOfficer_def)

lemma animateOfficer_wait_over:
  "route d \<noteq> [] \<Longrightarrow> waitingUntil d = Some w \<Longrightarrow> w \<le> now \<Longrightarrow>
   animateOfficer now rnd officer (Some d) =
     moveAndEmit now rnd officer (d\<lparr> waitingUntil := None, segmentProgress := 0, segmentStartTime := now \<rparr>)"
  by (simp add: animateOfficer_def)

lemma animateOfficer_moving:
  "route d \<noteq> [] \<Longrightarrow> waitingUntil d = None \<Longrightarrow>
   animateOfficer now rnd officer (Some d) = moveAndEmit now rnd officer d"
  by (simp add: animateOfficer_def)

lemma distance_to_nonneg: "0 \<le> distance_to p q"
  by (simp add: distance_to_def)




subsection \<open>Frames of the simulator\<close>



text \<open>The state in which a frame enters the move: the entry itself, or the entry with
  the elapsed wait cleared.\<close>

lemma animateOfficer_enters_move:
  assumes "route d \<noteq> []"
    and "case waitingUntil d of None \<Rightarrow> True | Some w \<Rightarrow> w \<le> now"
  shows "\<exists>d1. animateOfficer now rnd officer (Some d) = moveAndEmit now rnd officer d1
          \<and> current d1 = current d \<and> route d1 = route d \<and> routeIndex d1 = routeIndex d
          \<and> heading d1 = heading d \<and> waitingUntil d1 = None
          \<and> segmentStartTime d1 = (case waitingUntil d of None \<Rightarrow> segmentStartTime d | Some w \<Rightarrow> now)
          \<and> segmentProgress d1 = (case waitingUntil d of None \<Rightarrow> segmentProgress d | Some w \<Rightarrow> 0)"
proof (cases "waitingUntil d")
  case None
  with assms(1) have "animateOfficer now rnd officer (Some d) = moveAndEmit now rnd officer d"
    by (rule_tac animateOfficer_moving)
  with None show ?thesis by auto
next
  case (Some w)
  with assms(2) have "w \<le> now" by simp
  with assms(1) Some
  have "animateOfficer now rnd officer (Some d) =
     moveAndEmit now rnd officer (d\<lparr> waitingUntil := None, segmentProgress := 0, segmentStartTime := now \<rparr>)"
    by (rule_tac animateOfficer_wait_over)
  with Some show ?thesis by auto
qed

lemma moveAndEmit_far:
  assumes "routeIndex d < length (route d)"
    and "0.000005 < distance_to (current d) (route d ! routeIndex d)"
  shows "\<exists>d'. moveAndEmit now rnd officer d = Inr (officerFeature officer (heading d') (current d'), Some d')
     \<and> segmentProgress d' = min ((now - segmentStartTime d) / 15000) 1
     \<and> current d' =
          (fst (current d) + (fst (route d ! routeIndex d) - fst (current d))
              * min (0.0000015 * speedMultiplier (min ((now - segmentStartTime d) / 15000) 1)
                     / distance_to (current d) (route d ! routeIndex d)) 1,
           snd (current d) + (snd (route d ! routeIndex d) - snd (current d))
              * min (0.0000015 * speedMultiplier (min ((now - segmentStartTime d) / 15000) 1)
                     / distance_to (current d) (route d ! routeIndex d)) 1)
     \<and> heading d' = atan2 (snd (route d ! routeIndex d) - snd (current d))
                          (fst (route d ! routeIndex d) - fst (current d)) * 180 / pi
     \<and> route d' = route d \<and> routeIndex d' = routeIndex d \<and> waitingUntil d' = waitingUntil d
     \<and> segmentStartTime d' = segmentStartTime d"
  unfolding moveAndEmit_def moveAlongRoute_far[OF assms] by simp

lemma moveAndEmit_near:
  assumes "routeIndex d < length (route d)"
    and "distance_to (current d) (route d ! routeIndex d) \<le> 0.000005"
  shows "\<exists>d'. moveAndEmit now rnd officer d = Inr (officerFeature officer (heading d) (current d), Some d')
     \<and> waitingUntil d' = Some (now + 2000 + rnd * 1000)
     \<and> routeIndex d' = (if length (route d) \<le> routeIndex d + 1 then 0 else routeIndex d + 1)
     \<and> current d' = current d \<and> heading d' = heading d \<and> route d' = route d
     \<and> segmentProgress d' = segmentProgress d \<and> segmentStartTime d' = segmentStartTime d"
  unfolding moveAndEmit_def moveAlongRoute_near[OF assms] by simp




text \<open>
  C4: a frame that finds a moving unit within the epsilon \<open>0.000005\<close> of its active
  waypoint leaves the position, sets the wait deadline to the frame's time plus
  \<open>2000 + rnd * 1000\<close> milliseconds, at least 2 s and less than 3 s ahead for a draw
  \<open>rnd\<close> in \<open>[0,1)\<close>, and advances the waypoint index by one, back to 0 after the
  last waypoint.
\<close>

theorem reaching_waypoint_starts_dwell:
  assumes idx: "routeIndex d < length (route d)"
    and moving: "case waitingUntil d of None \<Rightarrow> True | Some w \<Rightarrow> w \<le> now"
    and near: "distance_to (current d) (route d ! routeIndex d) \<le> 0.000005"
    and rnd: "0 \<le> rnd" "rnd < 1"
  shows "\<exists>d' w'. animateOfficer now rnd officer (Some d)
                  = Inr (officerFeature officer (heading d) (current d), Some d')
     \<and> waitingUntil d' = Some w' \<and> w' = now + 2000 + rnd * 1000
     \<and> now + 2000 \<le> w' \<and> w' < now + 3000
     \<and> routeIndex d' = (routeIndex d + 1) mod length (route d)
     \<and> (routeIndex d + 1 < length (route d) \<longrightarrow> routeIndex d' = routeIndex d + 1)
     \<and> (routeIndex d + 1 = length (route d) \<longrightarrow> routeIndex d' = 0)
     \<and> route d' = route d \<and> current d' = current d \<and> heading d' = heading d"
proof -
  from idx have ne: "route d \<noteq> []" by auto
  from animateOfficer_enters_move[OF ne moving, of rnd officer]
  obtain d1 where d1: "animateOfficer now rnd officer (Some d) = moveAndEmit now rnd officer d1"
    "current d1 = current d" "route d1 = route d" "routeIndex d1 = routeIndex d"
    "heading d1 = heading d"
    by blast
  have idx1: "routeIndex d1 < length (route d1)" using idx d1 by simp
  have near1: "distance_to (current d1) (route d1 ! routeIndex d1) \<le> 0.000005"
    using near d1 by simp
  from moveAndEmit_near[OF idx1 near1, of now rnd officer]
  obtain d' where d':
    "moveAndEmit now rnd officer d1 = Inr (officerFeature officer (heading d) (current d), Some d')"
    "waitingUntil d' = Some (now + 2000 + rnd * 1000)"
    "routeIndex d' = (if length (route d) \<le> routeIndex d + 1 then 0 else routeIndex d + 1)"
    "current d' = current d" "heading d' = heading d" "route d' = route d"
    unfolding d1 by blast
  have res: "animateOfficer now rnd officer (Some d)
               = Inr (officerFeature officer (heading d) (current d), Some d')"
    using d1(1) d'(1) by simp
  have w: "now + 2000 \<le> now + 2000 + rnd * 1000" "now + 2000 + rnd * 1000 < now + 3000"
    using rnd by simp_all
  have i1: "routeIndex d' = (routeIndex d + 1) mod length (route d)"
    using idx d'(3) by (simp add: mod_Suc)
  have i2: "routeIndex d + 1 < length (route d) \<longrightarrow> routeIndex d' = routeIndex d + 1"
    using d'(3) by simp
  have i3: "routeIndex d + 1 = length (route d) \<longrightarrow> routeIndex d' = 0"
    using d'(3) by simp
  from res d'(2) refl[of "now + 2000 + rnd * 1000"] w i1 i2 i3 d'(6) d'(4) d'(5)
  show ?thesis by (intro exI[of _ d'] exI[of _ "now + 2000 + rnd * 1000"] conjI) assumption+
qed

text \<open>What a moving frame does guarantee of the heading: it lies in \<open>(-180, 180]\<close>.\<close>

lemma moving_tick_heading_range:
  assumes idx: "routeIndex d < length (route d)"
    and moving: "case waitingUntil d of None \<Rightarrow> True | Some w \<Rightarrow> w \<le> now"
    and far: "0.000005 < distance_to (current d) (route d ! routeIndex d)"
  shows "\<exists>f d'. animateOfficer now rnd officer (Some d) = Inr (f, Some d')
     \<and> feature_heading f = heading d' \<and> - 180 < heading d' \<and> heading d' \<le> 180"
proof -
  from idx have ne: "route d \<noteq> []" by auto
  from animateOfficer_enters_move[OF ne moving, of rnd officer]
  obtain d1 where d1: "animateOfficer now rnd officer (Some d) = moveAndEmit now rnd officer d1"
    "current d1 = current d" "route d1 = route d" "routeIndex d1 = routeIndex d"
    by blast
  have idx1: "routeIndex d1 < length (route d1)" using idx d1 by simp
  have far1: "0.000005 < distance_to (current d1) (route d1 ! routeIndex d1)"
    using far d1 by simp
  from moveAndEmit_far[OF idx1 far1, of now rnd officer]
  obtain d' where d':
    "moveAndEmit now rnd officer d1 = Inr (officerFeature officer (heading d') (current d'), Some d')"
    "heading d' = atan2 (snd (route d1 ! routeIndex d1) - snd (current d1))
                        (fst (route d1 ! routeIndex d1) - fst (current d1)) * 180 / pi"
    by blast
  let ?a = "atan2 (snd (route d1 ! routeIndex d1) - snd (current d1))
                  (fst (route d1 ! routeIndex d1) - fst (current d1))"
  from atan2_bounds[of "snd (route d1 ! routeIndex d1) - snd (current d1)"
      "fst (route d1 ! routeIndex d1) - fst (current d1)"]
  have "- pi < ?a" "?a \<le> pi" by simp_all
  then have "- 180 < ?a * 180 / pi \<and> ?a * 180 / pi \<le> 180"
    using pi_gt_zero by (simp add: field_simps)
  with d1(1) d' show ?thesis by (simp add: officerFeature_def)
qed

lemma patrol_U1_reached:
  "patrolRouteThen (Some loop_U1) (Some (initOfficer 0 0 unit_U1)) = Some patrol_U1"
  by (simp add: patrolRouteThen_def initOfficer_def num_or_def)

lemma distance_to_vertical: "distance_to (a, b) (a, c) = \<bar>c - b\<bar>"
  by (simp add: distance_to_def)


text \<open>
  C1: the heading emitted with a position is claimed to lie in \<open>[0,360)\<close>. The frame at
  1 s for the unit \<open>U1\<close>, whose first waypoint lies due south of it, writes and emits
  the heading \<open>-90\<close>: \<^verbatim>\<open>Math.atan2(dy, dx) * 180 / Math.PI\<close> is not brought into
  \<open>[0,360)\<close>.
\<close>

theorem southward_tick_heading_negative:
  "\<exists>f d'. animateOfficer 1000 0 unit_U1 (patrolRouteThen (Some loop_U1) (Some (initOfficer 0 0 unit_U1)))
             = Inr (f, Some d')
        \<and> feature_heading f = - 90 \<and> heading d' = - 90
        \<and> \<not> (0 \<le> feature_heading f \<and> feature_heading f < 360)"
proof -
  have far: "0.000005 < distance_to (current patrol_U1) (route patrol_U1 ! routeIndex patrol_U1)"
    by (simp add: distance_to_vertical)
  have idx: "routeIndex patrol_U1 < length (route patrol_U1)" by simp
  have "animateOfficer 1000 0 unit_U1 (Some patrol_U1) = moveAndEmit 1000 0 unit_U1 patrol_U1"
    by (rule animateOfficer_moving) simp_all
  moreover from moveAndEmit_far[OF idx far, of 1000 0 unit_U1]
  obtain d' where d': "moveAndEmit 1000 0 unit_U1 patrol_U1
      = Inr (officerFeature unit_U1 (heading d') (current d'), Some d')"
    "heading d' = atan2 (snd (route patrol_U1 ! routeIndex patrol_U1) - snd (current patrol_U1))
                        (fst (route patrol_U1 ! routeIndex patrol_U1) - fst (current patrol_U1)) * 180 / pi"
    by blast
  have "heading d' = - 90" unfolding d'(2) by (simp add: atan2_south)
  ultimately show ?thesis
    unfolding patrol_U1_reached using d'(1) by (simp add: officerFeature_def)
qed




theorem reaching_waypoint_starts_dwell_witness:
  "routeIndex arriving_U1 < length (route arriving_U1)
   \<and> (case waitingUntil arriving_U1 of None \<Rightarrow> True | Some w \<Rightarrow> w \<le> 20000)
   \<and> distance_to (current arriving_U1) (route arriving_U1 ! routeIndex arriving_U1) \<le> 0.000005
   \<and> (0::real) \<le> 1/2 \<and> (1/2::real) < 1
   \<and> (\<exists>d'. animateOfficer 20000 (1/2) unit_U1 (Some arriving_U1)
               = Inr (officerFeature unit_U1 (- 90) (- 84.388, 33.748003), Some d')
          \<and> waitingUntil d' = Some 22500 \<and> routeIndex d' = 1)
   \<and> routeIndex closing_U1 < length (route closing_U1)
   \<and> distance_to (current closing_U1) (route closing_U1 ! routeIndex closing_U1) \<le> 0.000005
   \<and> (\<exists>d'. animateOfficer 60000 (1/2) unit_U1 (Some closing_U1)
               = Inr (officerFeature unit_U1 90 (- 84.388, 33.748998), Some d')
          \<and> waitingUntil d' = Some 62500 \<and> routeIndex d' = 0)"
proof -
  have idx: "routeIndex arriving_U1 < length (route arriving_U1)" by simp
  have moving: "case waitingUntil arriving_U1 of None \<Rightarrow> True | Some w \<Rightarrow> w \<le> 20000" by simp
  have near: "distance_to (current arriving_U1) (route arriving_U1 ! routeIndex arriving_U1) \<le> 0.000005"
    by (simp add: distance_to_vertical)
  have rnd: "(0::real) \<le> 1/2" "(1/2::real) < 1" by simp_all
  from reaching_waypoint_starts_dwell[OF idx moving near rnd, of unit_U1]
  have a: "\<exists>d'. animateOfficer 20000 (1/2) unit_U1 (Some arriving_U1)
               = Inr (officerFeature unit_U1 (- 90) (- 84.388, 33.748003), Some d')
          \<and> waitingUntil d' = Some 22500 \<and> routeIndex d' = 1"
    by auto
  have idx2: "routeIndex closing_U1 < length (route closing_U1)" by simp
  have moving2: "case waitingUntil closing_U1 of None \<Rightarrow> True | Some w \<Rightarrow> w \<le> 60000" by simp
  have near2: "distance_to (current closing_U1) (route closing_U1 ! routeIndex closing_U1) \<le> 0.000005"
    by (simp add: distance_to_vertical)
  from reaching_waypoint_starts_dwell[OF idx2 moving2 near2 rnd, of unit_U1]
  have b: "\<exists>d'. animateOfficer 60000 (1/2) unit_U1 (Some closing_U1)
               = Inr (officerFeature unit_U1 90 (- 84.388, 33.748998), Some d')
          \<and> waitingUntil d' = Some 62500 \<and> routeIndex d' = 0"
    by auto
  from idx moving near rnd a idx2 near2 b show ?thesis by simp
qed

subsection \<open>Invariants of a frame\<close>

lemma moveAlongRoute_keeps:
  assumes "routeIndex d < length (route d)"
  shows "\<exists>d'. moveAlongRoute now rnd d = Inr d' \<and> route d' = route d
     \<and> routeIndex d' < length (route d') \<and> segmentStartTime d' = segmentStartTime d"
proof (cases "0.000005 < distance_to (current d) (route d ! routeIndex d)")
  case True
  show ?thesis unfolding moveAlongRoute_far[OF assms True] using assms by simp
next
  case False
  then have near: "distance_to (current d) (route d ! routeIndex d) \<le> 0.000005" by simp
  from assms have "route d \<noteq> []" by auto
  then show ?thesis unfolding moveAlongRoute_near[OF assms near] using assms by simp
qed

lemma animateOfficer_keeps:
  assumes "route d = [] \<or> routeIndex d < length (route d)" and "segmentStartTime d \<le> now"
  shows "\<exists>f d'. animateOfficer now rnd officer (Some d) = Inr (f, Some d')
     \<and> route d' = route d
     \<and> (route d' = [] \<or> routeIndex d' < length (route d'))
     \<and> segmentStartTime d' \<le> now"
proof (cases "route d = []")
  case True
  from animateOfficer_no_route[OF True] assms(2) True show ?thesis by simp
next
  case ne: False
  with assms(1) have idx: "routeIndex d < length (route d)" by simp
  show ?thesis
  proof (cases "waitingUntil d")
    case None
    from moveAlongRoute_keeps[OF idx, of now rnd] assms(2)
    show ?thesis
      unfolding animateOfficer_moving[OF ne None] moveAndEmit_def by auto
  next
    case (Some w)
    show ?thesis
    proof (cases "now < w")
      case True
      from animateOfficer_waiting[OF ne Some True] assms idx show ?thesis by simp
    next
      case False
      then have over: "w \<le> now" by simp
      let ?d1 = "d\<lparr> waitingUntil := None, segmentProgress := 0, segmentStartTime := now \<rparr>"
      have idx1: "routeIndex ?d1 < length (route ?d1)" using idx by simp
      from moveAlongRoute_keeps[OF idx1, of now rnd]
      show ?thesis
        unfolding animateOfficer_wait_over[OF ne Some over] moveAndEmit_def by auto
    qed
  qed
qed

lemma initOfficer_keeps:
  "route (initOfficer now rnd officer) = [] \<and> segmentStartTime (initOfficer now rnd officer) = now"
  by (simp add: initOfficer_def)

lemma patrolRouteThen_keeps:
  assumes "route d = [] \<or> routeIndex d < length (route d)"
  shows "\<exists>d'. patrolRouteThen r (Some d) = Some d'
     \<and> (route d' = [] \<or> routeIndex d' < length (route d'))
     \<and> segmentStartTime d' = segmentStartTime d \<and> current d' = current d"
  using assms by (cases r) (auto simp add: patrolRouteThen_def)

text \<open>
  From an initialised entry, and with a clock that does not run backwards, every frame of
  a run returns, the waypoint index stays within the route, and the start time of the
  segment is never ahead of the frame's time: the hypotheses of the theorems on moving
  frames hold at every frame of such a run.
\<close>

lemma animateFrames_keeps:
  assumes "route d = [] \<or> routeIndex d < length (route d)"
    and "segmentStartTime d \<le> t0"
    and "sorted (t0 # map fst ticks)"
  shows "\<exists>fs d'. animateFrames ticks officer (Some d) = Inr (fs, Some d')
     \<and> length fs = length ticks
     \<and> (route d' = [] \<or> routeIndex d' < length (route d'))
     \<and> segmentStartTime d' \<le> last (t0 # map fst ticks)"
  using assms
proof (induction ticks arbitrary: d t0)
  case Nil
  then show ?case by simp
next
  case (Cons t ticks)
  obtain now rnd where t: "t = (now, rnd)" by (cases t)
  from Cons.prems(3) have le: "t0 \<le> now" and rest: "sorted (now # map fst ticks)"
    unfolding t by simp_all
  from Cons.prems(2) le have clock: "segmentStartTime d \<le> now" by simp
  from animateOfficer_keeps[OF Cons.prems(1) clock, of rnd officer]
  obtain f d1 where step: "animateOfficer now rnd officer (Some d) = Inr (f, Some d1)"
    and idx1: "route d1 = [] \<or> routeIndex d1 < length (route d1)"
    and clock1: "segmentStartTime d1 \<le> now"
    by blast
  from Cons.IH[OF idx1 clock1 rest, of ]
  obtain fs d' where run: "animateFrames ticks officer (Some d1) = Inr (fs, Some d')"
    and len: "length fs = length ticks"
    and idx': "route d' = [] \<or> routeIndex d' < length (route d')"
    and clock': "segmentStartTime d' \<le> last (now # map fst ticks)"
    by blast
  have "animateFrames (t # ticks) officer (Some d) = Inr (f # fs, Some d')"
    unfolding t using step run by simp
  moreover have "last (t0 # map fst (t # ticks)) = last (now # map fst ticks)"
    unfolding t by simp
  ultimately show ?case using len idx' clock' by simp
qed

subsection \<open>Route acquisition\<close>

lemma animateFrames_no_route:
  assumes "route d = []"
  shows "animateFrames ticks officer (Some d)
     = Inr (replicate (length ticks) (officerFeature officer (heading d) (current d)), Some d)"
proof (induction ticks)
  case Nil
  show ?case by simp
next
  case (Cons t ticks)
  obtain now rnd where t: "t = (now, rnd)" by (cases t)
  show ?case unfolding t using Cons animateOfficer_no_route[OF assms] by simp
qed

lemma fetchPatrolRoute_no_token:
  "fetchPatrolRoute None fetch rnd1 rnd2 start = None"
  "fetchPatrolRoute (Some []) fetch rnd1 rnd2 start = None"
  by (simp_all add: fetchPatrolRoute_def)

lemma fetchPatrolRoute_failures:
  "fetch (patrolWaypoints start rnd1 rnd2) = Inl e \<Longrightarrow> fetchPatrolRoute token fetch rnd1 rnd2 start = None"
  "fetch (patrolWaypoints start rnd1 rnd2) = Inr None \<Longrightarrow> fetchPatrolRoute token fetch rnd1 rnd2 start = None"
  "fetch (patrolWaypoints start rnd1 rnd2) = Inr (Some []) \<Longrightarrow> fetchPatrolRoute token fetch rnd1 rnd2 start = None"
  "fetch (patrolWaypoints start rnd1 rnd2) = Inr (Some (Route None # rs)) \<Longrightarrow> fetchPatrolRoute token fetch rnd1 rnd2 start = None"
  by (simp_all add: fetchPatrolRoute_def fetchPatrolRoute_try_def)

text \<open>
  C5: \<open>fetchPatrolRoute\<close> returns \<^verbatim>\<open>null\<close> when the token is missing or empty,
  when the request or the parsing of its body throws (the \<^verbatim>\<open>catch\<close> swallows the
  error), and when the body has no routes or an empty list of routes. With that result the
  continuation leaves the entry of the unit as it was initialised, and every frame after
  it, at any times and random draws, emits the starting position and leaves the entry
  unchanged: the animation of the unit goes on, stationary.
\<close>

theorem failed_route_leaves_unit_stationary:
  "fetchPatrolRoute None fetch rnd1 rnd2 start = None
   \<and> fetchPatrolRoute (Some []) fetch rnd1 rnd2 start = None
   \<and> (fetch (patrolWaypoints start rnd1 rnd2) = Inl e
        \<longrightarrow> fetchPatrolRoute token fetch rnd1 rnd2 start = None)
   \<and> (fetch (patrolWaypoints start rnd1 rnd2) = Inr None
        \<or> fetch (patrolWaypoints start rnd1 rnd2) = Inr (Some [])
        \<longrightarrow> fetchPatrolRoute token fetch rnd1 rnd2 start = None)
   \<and> (fetchPatrolRoute token fetch rnd1 rnd2 (location officer) = None
        \<longrightarrow> patrolRouteThen (fetchPatrolRoute token fetch rnd1 rnd2 (location officer))
              (Some (initOfficer t0 rnd0 officer)) = Some (initOfficer t0 rnd0 officer)
          \<and> (\<exists>fs. animateFrames ticks officer (Some (initOfficer t0 rnd0 officer))
                     = Inr (fs, Some (initOfficer t0 rnd0 officer))
                \<and> length fs = length ticks
                \<and> (\<forall>f \<in> set fs. coordinates f = location officer)))"
proof -
  have r: "route (initOfficer t0 rnd0 officer) = []" by (simp add: initOfficer_def)
  have c: "current (initOfficer t0 rnd0 officer) = location officer" by (simp add: initOfficer_def)
  have frames: "\<exists>fs. animateFrames ticks officer (Some (initOfficer t0 rnd0 officer))
                     = Inr (fs, Some (initOfficer t0 rnd0 officer))
                \<and> length fs = length ticks
                \<and> (\<forall>f \<in> set fs. coordinates f = location officer)"
    unfolding animateFrames_no_route[OF r] c by (simp add: officerFeature_def)
  have keep: "patrolRouteThen None (Some (initOfficer t0 rnd0 officer)) = Some (initOfficer t0 rnd0 officer)"
    by (simp add: patrolRouteThen_def)
  have 1: "fetchPatrolRoute None fetch rnd1 rnd2 start = None"
    and 2: "fetchPatrolRoute (Some []) fetch rnd1 rnd2 start = None"
    by (rule fetchPatrolRoute_no_token)+
  have 3: "fetch (patrolWaypoints start rnd1 rnd2) = Inl e
        \<longrightarrow> fetchPatrolRoute token fetch rnd1 rnd2 start = None"
    using fetchPatrolRoute_failures(1) by blast
  have 4: "fetch (patrolWaypoints start rnd1 rnd2) = Inr None
        \<or> fetch (patrolWaypoints start rnd1 rnd2) = Inr (Some [])
        \<longrightarrow> fetchPatrolRoute token fetch rnd1 rnd2 start = None"
    using fetchPatrolRoute_failures(2,3) by blast
  have 5: "fetchPatrolRoute token fetch rnd1 rnd2 (location officer) = None
        \<longrightarrow> patrolRouteThen (fetchPatrolRoute token fetch rnd1 rnd2 (location officer))
              (Some (initOfficer t0 rnd0 officer)) = Some (initOfficer t0 rnd0 officer)
          \<and> (\<exists>fs. animateFrames ticks officer (Some (initOfficer t0 rnd0 officer))
                     = Inr (fs, Some (initOfficer t0 rnd0 officer))
                \<and> length fs = length ticks
                \<and> (\<forall>f \<in> set fs. coordinates f = location officer))"
    using keep frames by simp
  from 1 2 3 4 5 show ?thesis by (intro conjI) assumption+
qed

theorem failed_route_leaves_unit_stationary_witness:
  "(\<lambda>wps. Inl FetchError :: error + route_json list option) (patrolWaypoints (location unit_U1) 0 (1/2)) = Inl FetchError
   \<and> fetchPatrolRoute (Some ''pk.token'') (\<lambda>wps. Inl FetchError) 0 (1/2) (location unit_U1) = None
   \<and> patrolRouteThen (fetchPatrolRoute (Some ''pk.token'') (\<lambda>wps. Inl FetchError) 0 (1/2) (location unit_U1))
        (Some (initOfficer 0 0 unit_U1)) = Some (initOfficer 0 0 unit_U1)
   \<and> animateFrames [(1000, 0), (2000, 1/2), (3000, 0)] unit_U1 (Some (initOfficer 0 0 unit_U1))
       = Inr ([officerFeature unit_U1 90 (- 84.388, 33.749), officerFeature unit_U1 90 (- 84.388, 33.749),
             officerFeature unit_U1 90 (- 84.388, 33.749)], Some (initOfficer 0 0 unit_U1))"
proof -
  let ?fetch = "\<lambda>wps. Inl FetchError :: error + route_json list option"
  have f: "?fetch (patrolWaypoints (location unit_U1) 0 (1/2)) = Inl FetchError" by simp
  note t = failed_route_leaves_unit_stationary[of ?fetch 0 "1/2" "location unit_U1" FetchError
      "Some ''pk.token''" unit_U1 0 0 "[(1000, 0), (2000, 1/2), (3000, 0)]"]
  from t f have n: "fetchPatrolRoute (Some ''pk.token'') ?fetch 0 (1/2) (location unit_U1) = None"
    by blast
  from t n have k: "patrolRouteThen (fetchPatrolRoute (Some ''pk.token'') ?fetch 0 (1/2) (location unit_U1))
        (Some (initOfficer 0 0 unit_U1)) = Some (initOfficer 0 0 unit_U1)"
    by blast
  have a: "animateFrames [(1000, 0), (2000, 1/2), (3000, 0)] unit_U1 (Some (initOfficer 0 0 unit_U1))
       = Inr ([officerFeature unit_U1 90 (- 84.388, 33.749), officerFeature unit_U1 90 (- 84.388, 33.749),
             officerFeature unit_U1 90 (- 84.388, 33.749)], Some (initOfficer 0 0 unit_U1))"
    by (simp add: animateOfficer_def initOfficer_def num_or_def)
  from f n k a show ?thesis by blast
qed

lemma distance_to_offset:
  "distance_to (a, b) (a + cos t * r, b + sin t * r) = \<bar>r\<bar>"
proof -
  have "(a + cos t * r - a) * (a + cos t * r - a) + (b + sin t * r - b) * (b + sin t * r - b)
      = r * r * (cos t * cos t + sin t * sin t)"
    by (simp only: add_diff_cancel_left' distrib_left mult.assoc mult.left_commute mult.commute)
  also have "\<dots> = r * r" by (simp only: sin_cos_squared_add3 mult_1_right)
  finally show ?thesis unfolding distance_to_def fst_conv snd_conv by simp
qed

text \<open>
  C8: for every starting point and every two random draws, the waypoints that
  \<open>fetchPatrolRoute\<close> requests are the start, two waypoints at the distance \<open>0.002\<close>
  degrees from the start, and the start again: the requested sequence begins and ends at
  the starting point. With a token, the result of \<open>fetchPatrolRoute\<close> is what the
  routing service answers to exactly this request.
\<close>

theorem patrol_request_is_closed_loop:
  "\<exists>waypoint1 waypoint2.
      patrolWaypoints start rnd1 rnd2 = [start, waypoint1, waypoint2, start]
    \<and> distance_to start waypoint1 = 0.002 \<and> distance_to start waypoint2 = 0.002
    \<and> hd (patrolWaypoints start rnd1 rnd2) = start
    \<and> last (patrolWaypoints start rnd1 rnd2) = start
    \<and> (token \<noteq> None \<and> token \<noteq> Some [] \<longrightarrow>
         fetchPatrolRoute token fetch rnd1 rnd2 start
           = (case fetchPatrolRoute_try fetch rnd1 rnd2 start of Inl e \<Rightarrow> None | Inr r \<Rightarrow> r)
         \<and> fetchPatrolRoute_try fetch rnd1 rnd2 start
           = (case fetch [start, waypoint1, waypoint2, start] of
                Inl e \<Rightarrow> Inl e
              | Inr None \<Rightarrow> Inr None
              | Inr (Some []) \<Rightarrow> Inr None
              | Inr (Some (Route None # _)) \<Rightarrow> Inl TypeError
              | Inr (Some (Route (Some (Geometry coords)) # _)) \<Rightarrow> Inr coords))"
proof -
  obtain a b where s: "start = (a, b)" by (cases start)
  let ?a1 = "rnd1 * pi * 2"
  let ?a2 = "?a1 + pi / 2 + (rnd2 - 0.5) * pi"
  let ?w1 = "(a + cos ?a1 * 0.002, b + sin ?a1 * 0.002)"
  let ?w2 = "(a + cos ?a2 * 0.002, b + sin ?a2 * 0.002)"
  have w: "patrolWaypoints start rnd1 rnd2 = [start, ?w1, ?w2, start]"
    unfolding s by (simp add: patrolWaypoints_def Let_def)
  have d1: "distance_to start ?w1 = 0.002"
    unfolding s using distance_to_offset[of a b ?a1 "0.002"] by simp
  have d2: "distance_to start ?w2 = 0.002"
    unfolding s using distance_to_offset[of a b ?a2 "0.002"] by simp
  have h: "hd (patrolWaypoints start rnd1 rnd2) = start"
    and l: "last (patrolWaypoints start rnd1 rnd2) = start"
    unfolding w by simp_all
  have f: "token \<noteq> None \<and> token \<noteq> Some [] \<longrightarrow>
         fetchPatrolRoute token fetch rnd1 rnd2 start
           = (case fetchPatrolRoute_try fetch rnd1 rnd2 start of Inl e \<Rightarrow> None | Inr r \<Rightarrow> r)
         \<and> fetchPatrolRoute_try fetch rnd1 rnd2 start
           = (case fetch [start, ?w1, ?w2, start] of
                Inl e \<Rightarrow> Inl e
              | Inr None \<Rightarrow> Inr None
              | Inr (Some []) \<Rightarrow> Inr None
              | Inr (Some (Route None # _)) \<Rightarrow> Inl TypeError
              | Inr (Some (Route (Some (Geometry coords)) # _)) \<Rightarrow> Inr coords)"
    unfolding fetchPatrolRoute_def fetchPatrolRoute_try_def w by simp
  from w d1 d2 h l f show ?thesis
    by (intro exI[of _ ?w1] exI[of _ ?w2] conjI) assumption+
qed

theorem patrol_request_is_closed_loop_witness:
  "Some ''pk.token'' \<noteq> None \<and> Some ''pk.token'' \<noteq> Some []
   \<and> patrolWaypoints (- 84.388, 33.749) 0 (1/2)
       = [(- 84.388, 33.749), (- 84.386, 33.749), (- 84.388, 33.751), (- 84.388, 33.749)]
   \<and> fetchPatrolRoute (Some ''pk.token'') (\<lambda>wps. Inr (Some [Route (Some (Geometry (Some wps)))])) 0 (1/2)
        (- 84.388, 33.749)
       = Some [(- 84.388, 33.749), (- 84.386, 33.749), (- 84.388, 33.751), (- 84.388, 33.749)]"
proof -
  let ?fetch = "\<lambda>wps. Inr (Some [Route (Some (Geometry (Some wps)))]) :: error + route_json list option"
  have t: "Some ''pk.token'' \<noteq> None \<and> Some ''pk.token'' \<noteq> Some []" by simp
  have w: "patrolWaypoints (- 84.388, 33.749) 0 (1/2)
       = [(- 84.388, 33.749), (- 84.386, 33.749), (- 84.388, 33.751), (- 84.388, 33.749)]"
    by (simp add: patrolWaypoints_def Let_def)
  from patrol_request_is_closed_loop[of "(- 84.388, 33.749)" 0 "1/2" "Some ''pk.token''" ?fetch]
  obtain w1 w2 where
    p: "patrolWaypoints (- 84.388, 33.749) 0 (1/2) = [(- 84.388, 33.749), w1, w2, (- 84.388, 33.749)]"
    and f: "Some ''pk.token'' \<noteq> None \<and> Some ''pk.token'' \<noteq> Some [] \<longrightarrow>
         fetchPatrolRoute (Some ''pk.token'') ?fetch 0 (1/2) (- 84.388, 33.749)
           = (case fetchPatrolRoute_try ?fetch 0 (1/2) (- 84.388, 33.749) of Inl e \<Rightarrow> None | Inr r \<Rightarrow> r)
         \<and> fetchPatrolRoute_try ?fetch 0 (1/2) (- 84.388, 33.749)
           = (case ?fetch [(- 84.388, 33.749), w1, w2, (- 84.388, 33.749)] of
                Inl e \<Rightarrow> Inl e
              | Inr None \<Rightarrow> Inr None
              | Inr (Some []) \<Rightarrow> Inr None
              | Inr (Some (Route None # _)) \<Rightarrow> Inl TypeError
              | Inr (Some (Route (Some (Geometry coords)) # _)) \<Rightarrow> Inr coords)"
    by blast
  from p w have ws: "w1 = (- 84.386, 33.749)" "w2 = (- 84.388, 33.751)" by simp_all
  from f t have "fetchPatrolRoute (Some ''pk.token'') ?fetch 0 (1/2) (- 84.388, 33.749)
       = Some [(- 84.388, 33.749), w1, w2, (- 84.388, 33.749)]"
    by simp
  with t w ws show ?thesis by simp
qed

subsection \<open>Sync cycles\<close>

lemma sync_records_counts:
  "sync_records upsert ps (c, s) = (c', s') \<Longrightarrow>
     total_sync_cycles c' = total_sync_cycles c \<and> last_cycle_at c' = last_cycle_at c
     \<and> successful_upserts c' + failed_upserts c'
         = successful_upserts c + failed_upserts c + length ps"
proof (induction ps arbitrary: c s)
  case Nil
  then show ?case by simp
next
  case (Cons p ps)
  show ?case
  proof (cases "upsert s p")
    case None
    with Cons.prems
    have "sync_records upsert ps (c\<lparr>failed_upserts := failed_upserts c + 1\<rparr>, s) = (c', s')"
      by simp
    from Cons.IH[OF this] show ?thesis by simp
  next
    case (Some s1)
    with Cons.prems
    have "sync_records upsert ps (c\<lparr>successful_upserts := successful_upserts c + 1\<rparr>, s1) = (c', s')"
      by simp
    from Cons.IH[OF this] show ?thesis by simp
  qed
qed

lemma sync_records_by_outcome:
  assumes "\<forall>s. \<forall>p \<in> set ps. (upsert s p = None) = (\<not> ok p)"
    and "sync_records upsert ps (c, s) = (c', s')"
  shows "failed_upserts c' = failed_upserts c + length (filter (\<lambda>p. \<not> ok p) ps)
     \<and> successful_upserts c' = successful_upserts c + length (filter ok ps)"
  using assms
proof (induction ps arbitrary: c s)
  case Nil
  then show ?case by simp
next
  case (Cons p ps)
  from Cons.prems(1) have rest: "\<forall>s. \<forall>p \<in> set ps. (upsert s p = None) = (\<not> ok p)"
    and here: "(upsert s p = None) = (\<not> ok p)" by simp_all
  show ?case
  proof (cases "upsert s p")
    case None
    with Cons.prems(2)
    have "sync_records upsert ps (c\<lparr>failed_upserts := failed_upserts c + 1\<rparr>, s) = (c', s')"
      by simp
    from Cons.IH[OF rest this] None here show ?thesis by simp
  next
    case (Some s1)
    with Cons.prems(2)
    have "sync_records upsert ps (c\<lparr>successful_upserts := successful_upserts c + 1\<rparr>, s1) = (c', s')"
      by simp
    from Cons.IH[OF rest this] Some here show ?thesis by simp
  qed
qed

lemma sync_records_all_fail:
  assumes "\<forall>s. \<forall>p \<in> set ps. upsert s p = None"
  shows "sync_records upsert ps (c, s) = (c\<lparr>failed_upserts := failed_upserts c + length ps\<rparr>, s)"
  using assms
proof (induction ps arbitrary: c)
  case Nil
  show ?case by simp
next
  case (Cons p ps)
  then show ?case by simp
qed

lemma sync_records_append:
  "sync_records upsert (ps @ qs) (c, s) = sync_records upsert qs (sync_records upsert ps (c, s))"
proof (induction ps arbitrary: c s)
  case Nil
  show ?case by simp
next
  case (Cons p ps)
  show ?case by (cases "upsert s p") (simp_all add: Cons.IH)
qed

lemma sync_cycle_result:
  assumes "sync_records upsert snapshot (c, s) = (c1, s1)"
  shows "sync_cycle upsert now snapshot (c, s)
     = (c1\<lparr>last_cycle_at := Some now, total_sync_cycles := total_sync_cycles c1 + 1\<rparr>, s1)"
  using assms by (simp add: sync_cycle_def)

lemma sync_cycle_counts:
  assumes "sync_cycle upsert now snapshot (c, s) = (c', s')"
  shows "total_sync_cycles c' = total_sync_cycles c + 1 \<and> last_cycle_at c' = Some now
     \<and> successful_upserts c' + failed_upserts c'
         = successful_upserts c + failed_upserts c + length snapshot"
proof -
  obtain c1 s1 where r: "sync_records upsert snapshot (c, s) = (c1, s1)"
    by (cases "sync_records upsert snapshot (c, s)")
  from sync_cycle_result[OF r, of now] assms
  have c': "c' = c1\<lparr>last_cycle_at := Some now, total_sync_cycles := total_sync_cycles c1 + 1\<rparr>"
    by simp
  from sync_records_counts[OF r] show ?thesis unfolding c' by simp
qed

lemma sync_cycle_by_outcome:
  assumes "\<forall>s. \<forall>p \<in> set snapshot. (upsert s p = None) = (\<not> ok p)"
    and "sync_cycle upsert now snapshot (c, s) = (c', s')"
  shows "failed_upserts c' = failed_upserts c + length (filter (\<lambda>p. \<not> ok p) snapshot)
     \<and> successful_upserts c' = successful_upserts c + length (filter ok snapshot)"
proof -
  obtain c1 s1 where r: "sync_records upsert snapshot (c, s) = (c1, s1)"
    by (cases "sync_records upsert snapshot (c, s)")
  from sync_cycle_result[OF r, of now] assms(2)
  have c': "c' = c1\<lparr>last_cycle_at := Some now, total_sync_cycles := total_sync_cycles c1 + 1\<rparr>"
    by simp
  from sync_records_by_outcome[OF assms(1) r] show ?thesis unfolding c' by simp
qed

lemma sync_cycle_all_fail:
  assumes "\<forall>s. \<forall>p \<in> set snapshot. upsert s p = None"
  shows "sync_cycle upsert now snapshot (c, s)
     = (c\<lparr>failed_upserts := failed_upserts c + length snapshot,
           last_cycle_at := Some now, total_sync_cycles := total_sync_cycles c + 1\<rparr>, s)"
  unfolding sync_cycle_def sync_records_all_fail[OF assms] by simp

lemma sync_cycle_skips_failed_record:
  assumes "sync_records upsert ps (c, s) = (c1, s1)" and "upsert s1 p = None"
  shows "sync_cycle upsert now (ps @ p # qs) (c, s)
     = sync_cycle upsert now qs (c1\<lparr>failed_upserts := failed_upserts c1 + 1\<rparr>, s1)"
  unfolding sync_cycle_def sync_records_append assms(1) using assms(2) by simp

text \<open>
  C7: a sync cycle increments \<open>total_sync_cycles\<close> by one and sets \<open>last_cycle_at\<close>,
  whatever the outcomes; every record of the snapshot is counted once, as a success or as
  a failure. A record whose upsert fails adds one to \<open>failed_upserts\<close> and the cycle
  goes on with the records after it. When the outcome of an upsert depends on the record
  only, the failures counted are the failing records and the successes the others. When
  every upsert fails, \<open>failed_upserts\<close> grows by the number of records, no success is
  counted, the store is as before, and the next cycle counts again: two cycles in total,
  and if its upserts all succeed, one success per record of its snapshot.
\<close>

theorem sync_cycle_counts_every_record:
  fixes upsert upsert2 :: "'s \<Rightarrow> PositionRecord \<Rightarrow> 's option"
    and now now2 :: real and snapshot snapshot2 :: "PositionRecord list"
    and c :: SyncCheckpoint and s :: 's
  defines "after \<equiv> sync_cycle upsert now snapshot (c, s)"
  defines "after2 \<equiv> sync_cycle upsert2 now2 snapshot2 (sync_cycle upsert now snapshot (c, s))"
  shows "total_sync_cycles (fst after) = total_sync_cycles c + 1
     \<and> last_cycle_at (fst after) = Some now
     \<and> successful_upserts (fst after) + failed_upserts (fst after)
         = successful_upserts c + failed_upserts c + length snapshot
     \<and> (snapshot = ps @ p # qs \<and> sync_records upsert ps (c, s) = (c1, s1) \<and> upsert s1 p = None
          \<longrightarrow> after = sync_cycle upsert now qs (c1\<lparr>failed_upserts := failed_upserts c1 + 1\<rparr>, s1))
     \<and> ((\<forall>s. \<forall>p \<in> set snapshot. (upsert s p = None) = (\<not> ok p))
          \<longrightarrow> failed_upserts (fst after) = failed_upserts c + length (filter (\<lambda>p. \<not> ok p) snapshot)
            \<and> successful_upserts (fst after) = successful_upserts c + length (filter ok snapshot))
     \<and> ((\<forall>s. \<forall>p \<in> set snapshot. upsert s p = None)
          \<longrightarrow> failed_upserts (fst after) = failed_upserts c + length snapshot
            \<and> successful_upserts (fst after) = successful_upserts c
            \<and> snd after = s
            \<and> total_sync_cycles (fst after2) = total_sync_cycles c + 2
            \<and> last_cycle_at (fst after2) = Some now2
            \<and> ((\<forall>s. \<forall>p \<in> set snapshot2. upsert2 s p \<noteq> None)
                 \<longrightarrow> successful_upserts (fst after2) = successful_upserts c + length snapshot2
                   \<and> failed_upserts (fst after2) = failed_upserts c + length snapshot))"
proof -
  obtain c' s' where r: "sync_cycle upsert now snapshot (c, s) = (c', s')"
    by (cases "sync_cycle upsert now snapshot (c, s)")
  obtain c'' s'' where r2: "sync_cycle upsert2 now2 snapshot2 (c', s') = (c'', s'')"
    by (cases "sync_cycle upsert2 now2 snapshot2 (c', s')")
  have a: "after = (c', s')" and a2: "after2 = (c'', s'')"
    unfolding after_def after2_def r r2 by simp_all
  from sync_cycle_counts[OF r]
  have counts: "total_sync_cycles c' = total_sync_cycles c + 1" "last_cycle_at c' = Some now"
    "successful_upserts c' + failed_upserts c'
         = successful_upserts c + failed_upserts c + length snapshot"
    by simp_all
  have skip: "snapshot = ps @ p # qs \<and> sync_records upsert ps (c, s) = (c1, s1) \<and> upsert s1 p = None
          \<longrightarrow> (c', s') = sync_cycle upsert now qs (c1\<lparr>failed_upserts := failed_upserts c1 + 1\<rparr>, s1)"
    using sync_cycle_skips_failed_record[of upsert ps c s c1 s1 p now qs] r by auto
  have outcome: "(\<forall>s. \<forall>p \<in> set snapshot. (upsert s p = None) = (\<not> ok p))
          \<longrightarrow> failed_upserts c' = failed_upserts c + length (filter (\<lambda>p. \<not> ok p) snapshot)
            \<and> successful_upserts c' = successful_upserts c + length (filter ok snapshot)"
    using sync_cycle_by_outcome[of snapshot upsert ok now c s c' s'] r by blast
  have down: "(\<forall>s. \<forall>p \<in> set snapshot. upsert s p = None)
          \<longrightarrow> failed_upserts c' = failed_upserts c + length snapshot
            \<and> successful_upserts c' = successful_upserts c
            \<and> s' = s
            \<and> total_sync_cycles c'' = total_sync_cycles c + 2
            \<and> last_cycle_at c'' = Some now2
            \<and> ((\<forall>s. \<forall>p \<in> set snapshot2. upsert2 s p \<noteq> None)
                 \<longrightarrow> successful_upserts c'' = successful_upserts c + length snapshot2
                   \<and> failed_upserts c'' = failed_upserts c + length snapshot)"
  proof
    assume all: "\<forall>s. \<forall>p \<in> set snapshot. upsert s p = None"
    from sync_cycle_all_fail[OF all, of now c s] r
    have c': "c' = c\<lparr>failed_upserts := failed_upserts c + length snapshot,
           last_cycle_at := Some now, total_sync_cycles := total_sync_cycles c + 1\<rparr>"
      and s': "s' = s" by simp_all
    from sync_cycle_counts[OF r2] have t2: "total_sync_cycles c'' = total_sync_cycles c + 2"
      and l2: "last_cycle_at c'' = Some now2"
      unfolding c' by simp_all
    have ok2: "(\<forall>s. \<forall>p \<in> set snapshot2. upsert2 s p \<noteq> None)
                      \<longrightarrow> successful_upserts c'' = successful_upserts c + length snapshot2
                        \<and> failed_upserts c'' = failed_upserts c + length snapshot"
    proof
      assume "\<forall>s. \<forall>p \<in> set snapshot2. upsert2 s p \<noteq> None"
      then have "\<forall>s. \<forall>p \<in> set snapshot2. (upsert2 s p = None) = (\<not> (\<lambda>p. True) p)" by simp
      from sync_cycle_by_outcome[OF this r2]
      show "successful_upserts c'' = successful_upserts c + length snapshot2
                        \<and> failed_upserts c'' = failed_upserts c + length snapshot"
        unfolding c' by simp
    qed
    have f: "failed_upserts c' = failed_upserts c + length snapshot"
      and g: "successful_upserts c' = successful_upserts c" unfolding c' by simp_all
    from f g s' t2 l2 ok2
    show "failed_upserts c' = failed_upserts c + length snapshot
            \<and> successful_upserts c' = successful_upserts c
            \<and> s' = s
            \<and> total_sync_cycles c'' = total_sync_cycles c + 2
            \<and> last_cycle_at c'' = Some now2
            \<and> ((\<forall>s. \<forall>p \<in> set snapshot2. upsert2 s p \<noteq> None)
                 \<longrightarrow> successful_upserts c'' = successful_upserts c + length snapshot2
                   \<and> failed_upserts c'' = failed_upserts c + length snapshot)"
      by (intro conjI) assumption+
  qed
  from counts skip outcome down show ?thesis
    unfolding a a2 fst_conv snd_conv by (intro conjI) assumption+
qed

theorem sync_cycle_counts_every_record_witness:
  "fst (sync_cycle store_down 10 [car_A, car_B] (checkpoint0, Map.empty))
       = \<lparr> total_sync_cycles = 1, successful_upserts = 0, failed_upserts = 2, last_cycle_at = Some 10 \<rparr>
   \<and> total_sync_cycles (fst (sync_cycle store_up 20 [car_B, car_A]
         (sync_cycle store_down 10 [car_A, car_B] (checkpoint0, Map.empty)))) = 2
   \<and> successful_upserts (fst (sync_cycle store_up 20 [car_B, car_A]
         (sync_cycle store_down 10 [car_A, car_B] (checkpoint0, Map.empty)))) = 2
   \<and> failed_upserts (fst (sync_cycle store_up 20 [car_B, car_A]
         (sync_cycle store_down 10 [car_A, car_B] (checkpoint0, Map.empty)))) = 2
   \<and> fst (sync_cycle store_flaky 10 [car_B, car_A] (checkpoint0, Map.empty))
       = \<lparr> total_sync_cycles = 1, successful_upserts = 1, failed_upserts = 1, last_cycle_at = Some 10 \<rparr>"
proof -
  have down: "\<forall>s. \<forall>p \<in> set [car_A, car_B]. store_down s p = None" by simp
  have up: "\<forall>s. \<forall>p \<in> set [car_B, car_A]. store_up s p \<noteq> None" by simp
  note t = sync_cycle_counts_every_record[where upsert = store_down and now = 10
      and snapshot = "[car_A, car_B]" and c = checkpoint0 and s = Map.empty
      and ?upsert2.0 = store_up and ?now2.0 = 20 and ?snapshot2.0 = "[car_B, car_A]"]
  from t down up
  have 1: "total_sync_cycles (fst (sync_cycle store_up 20 [car_B, car_A]
         (sync_cycle store_down 10 [car_A, car_B] (checkpoint0, Map.empty)))) = 2"
    and 2: "successful_upserts (fst (sync_cycle store_up 20 [car_B, car_A]
         (sync_cycle store_down 10 [car_A, car_B] (checkpoint0, Map.empty)))) = 2"
    and 3: "failed_upserts (fst (sync_cycle store_up 20 [car_B, car_A]
         (sync_cycle store_down 10 [car_A, car_B] (checkpoint0, Map.empty)))) = 2"
    by simp_all
  have 0: "fst (sync_cycle store_down 10 [car_A, car_B] (checkpoint0, Map.empty))
       = \<lparr> total_sync_cycles = 1, successful_upserts = 0, failed_upserts = 2, last_cycle_at = Some 10 \<rparr>"
    by (simp add: sync_cycle_def)
  have 4: "fst (sync_cycle store_flaky 10 [car_B, car_A] (checkpoint0, Map.empty))
       = \<lparr> total_sync_cycles = 1, successful_upserts = 1, failed_upserts = 1, last_cycle_at = Some 10 \<rparr>"
    by (simp add: sync_cycle_def)
  from 0 1 2 3 4 show ?thesis by (intro conjI) assumption+
qed

subsection \<open>Proximity query\<close>

lemma haversine_self: "haversine_km la lo la lo = 0"
  by (simp add: haversine_km_def Let_def atan2_def)

lemma haversine_same_lng:
  assumes "\<bar>radians lat2 - radians lat1\<bar> < pi"
  shows "haversine_km lat1 lo lat2 lo = 6371 * \<bar>radians lat2 - radians lat1\<bar>"
proof -
  define h where "h = (radians lat2 - radians lat1) / 2"
  have hb: "- (pi / 2) < h" "h < pi / 2" using assms unfolding h_def by (simp_all add: abs_less_iff)
  have cpos: "0 < cos h" using hb by (rule cos_gt_zero_pi)
  have a: "(sin h)\<^sup>2 + cos (radians lat1) * cos (radians lat2) * (sin ((radians lo - radians lo) / 2))\<^sup>2
      = (sin h)\<^sup>2" by simp
  have s1: "sqrt ((sin h)\<^sup>2) = \<bar>sin h\<bar>" by simp
  have "1 - (sin h)\<^sup>2 = (cos h)\<^sup>2" by (simp add: cos_squared_eq)
  then have s2: "sqrt (1 - (sin h)\<^sup>2) = cos h" using cpos by simp
  have "atan2 \<bar>sin h\<bar> (cos h) = \<bar>h\<bar>"
  proof (cases "0 \<le> h")
    case True
    then have "0 \<le> sin h" using hb pi_gt_zero by (intro sin_ge_zero) simp_all
    then have "\<bar>sin h\<bar> / cos h = tan h" by (simp add: tan_def)
    then have "atan2 \<bar>sin h\<bar> (cos h) = arctan (tan h)" using cpos by (simp add: atan2_def)
    also have "\<dots> = h" using hb by (rule arctan_tan)
    finally show ?thesis using True by simp
  next
    case False
    then have neg: "h < 0" by simp
    then have "0 \<le> sin (- h)" using hb pi_gt_zero by (intro sin_ge_zero) simp_all
    then have "\<bar>sin h\<bar> = sin (- h)" by simp
    then have "\<bar>sin h\<bar> / cos h = tan (- h)" by (simp add: tan_def)
    then have "atan2 \<bar>sin h\<bar> (cos h) = arctan (tan (- h))" using cpos by (simp add: atan2_def)
    also have "\<dots> = - h" using hb by (intro arctan_tan) simp_all
    finally show ?thesis using neg by simp
  qed
  then have "haversine_km lat1 lo lat2 lo = 2 * 6371 * \<bar>h\<bar>"
    unfolding haversine_km_def Let_def h_def[symmetric] a s1 s2 by simp
  then show ?thesis unfolding h_def by simp
qed

lemma query_records:
  "map (fst \<circ> snd) (filter (\<lambda>x. distance_km x \<le> r) (map (with_distance clat clng) snapshot))
      = filter (\<lambda>p. haversine_km clat clng (lat p) (lng p) \<le> r) snapshot"
  by (induction snapshot) (simp_all add: with_distance_def distance_km_def)

lemma query_mset:
  "mset (map (fst \<circ> snd) (query snapshot clat clng r))
     = mset (filter (\<lambda>p. haversine_km clat clng (lat p) (lng p) \<le> r) snapshot)"
proof -
  let ?within = "filter (\<lambda>x. distance_km x \<le> r) (map (with_distance clat clng) snapshot)"
  have "mset (map (fst \<circ> snd) (sort_key distance_km ?within))
      = image_mset (fst \<circ> snd) (mset (sort_key distance_km ?within))"
    by (rule mset_map)
  also have "\<dots> = image_mset (fst \<circ> snd) (mset ?within)"
    by (simp only: mset_sort)
  also have "\<dots> = mset (map (fst \<circ> snd) ?within)"
    by (rule mset_map[symmetric])
  finally show ?thesis
    unfolding query_def query_records .
qed

lemma query_entries:
  assumes "x \<in> set (query snapshot clat clng r)"
  shows "\<exists>p \<in> set snapshot. x = (unit_id p, p, haversine_km clat clng (lat p) (lng p))
           \<and> haversine_km clat clng (lat p) (lng p) \<le> r"
proof -
  from assms have "x \<in> set (filter (\<lambda>x. distance_km x \<le> r) (map (with_distance clat clng) snapshot))"
    unfolding query_def by (simp only: set_sort)
  then obtain p where "p \<in> set snapshot" "x = with_distance clat clng p" "distance_km x \<le> r"
    by auto
  then show ?thesis by (auto simp add: with_distance_def distance_km_def)
qed

lemma query_sorted: "sorted (map distance_km (query snapshot clat clng r))"
  unfolding query_def by (rule sorted_sort_key)

text \<open>
  C6: the records that the proximity query returns are exactly (as a multiset) the
  records of the snapshot whose haversine distance from the centre is at most the radius;
  each entry carries the identifier of its record and that distance; the entries are
  ascending by distance; and the distance from a point to itself is 0.
\<close>

theorem proximity_query_within_radius_ascending:
  "mset (map (fst \<circ> snd) (query snapshot clat clng r))
     = mset (filter (\<lambda>p. haversine_km clat clng (lat p) (lng p) \<le> r) snapshot)
   \<and> (\<forall>x \<in> set (query snapshot clat clng r).
        \<exists>p \<in> set snapshot. x = (unit_id p, p, haversine_km clat clng (lat p) (lng p))
           \<and> haversine_km clat clng (lat p) (lng p) \<le> r)
   \<and> sorted (map distance_km (query snapshot clat clng r))
   \<and> haversine_km la lo la lo = 0"
  using query_mset query_entries query_sorted haversine_self by blast

lemma haversine_A_A: "haversine_km 33.749 (- 84.388) (lat car_A) (lng car_A) = 0"
  using haversine_self[of "33.749" "- 84.388"] by simp

lemma haversine_A_B: "haversine_km 33.749 (- 84.388) (lat car_B) (lng car_B) = 6371 * pi / 200000"
proof -
  have d: "radians 33.7499 - radians 33.749 = pi / 200000"
    by (simp add: radians_def)
  have "\<bar>radians 33.7499 - radians 33.749\<bar> < pi"
    unfolding d using pi_gt_zero by simp
  from haversine_same_lng[OF this, of "- 84.388"] show ?thesis
    unfolding d using pi_gt_zero by simp
qed

theorem proximity_query_within_radius_ascending_witness:
  "query [car_B, car_A] 33.749 (- 84.388) 0.2
      = [(''A'', car_A, 0), (''B'', car_B, 6371 * pi / 200000)]
   \<and> query [car_B, car_A] 33.749 (- 84.388) 0.05 = [(''A'', car_A, 0)]
   \<and> (''B'', car_B, 6371 * pi / 200000) \<in> set (query [car_B, car_A] 33.749 (- 84.388) 0.2)
   \<and> (\<exists>p \<in> set [car_B, car_A].
         (''B'', car_B, 6371 * pi / 200000)
            = (unit_id p, p, haversine_km 33.749 (- 84.388) (lat p) (lng p))
         \<and> haversine_km 33.749 (- 84.388) (lat p) (lng p) \<le> 0.2)
   \<and> sorted (map distance_km (query [car_B, car_A] 33.749 (- 84.388) 0.2))"
proof -
  have pos: "0 < 6371 * pi / 200000" using pi_gt_zero by simp
  have le: "6371 * pi / 200000 \<le> 0.2" using pi_less_4 by simp
  have gt: "\<not> 6371 * pi / 200000 \<le> 0.05" using pi_ge_two by simp
  have q1: "query [car_B, car_A] 33.749 (- 84.388) 0.2
      = [(''A'', car_A, 0), (''B'', car_B, 6371 * pi / 200000)]"
    unfolding query_def with_distance_def list.map haversine_A_A haversine_A_B
    using pos le by (simp add: distance_km_def not_le)
  have q2: "query [car_B, car_A] 33.749 (- 84.388) 0.05 = [(''A'', car_A, 0)]"
    unfolding query_def with_distance_def list.map haversine_A_A haversine_A_B
    using gt by (simp add: distance_km_def not_le)
  have m: "(''B'', car_B, 6371 * pi / 200000) \<in> set (query [car_B, car_A] 33.749 (- 84.388) 0.2)"
    unfolding q1 by simp
  note t = proximity_query_within_radius_ascending[of "[car_B, car_A]" "33.749" "- 84.388" "0.2"]
  from t m have e: "\<exists>p \<in> set [car_B, car_A].
         (''B'', car_B, 6371 * pi / 200000)
            = (unit_id p, p, haversine_km 33.749 (- 84.388) (lat p) (lng p))
         \<and> haversine_km 33.749 (- 84.388) (lat p) (lng p) \<le> 0.2"
    by blast
  from t have s: "sorted (map distance_km (query [car_B, car_A] 33.749 (- 84.388) 0.2))"
    by blast
  from q1 q2 m e s show ?thesis by (intro conjI) assumption+
qed

end
